theory Spec2Isabelle
  imports Main "HOL-Library.Product_Lexorder" "HOL-Library.Multiset" "HOL-Library.Sublist"
begin

section \<open>Dates, times and timestamps\<close>

text \<open>
  A calendar date is the triple (year, month, day) and a timestamp is a date with a time of
  day, counted in nanoseconds since midnight (the resolution of a pandas Timestamp). Both
  are compared lexicographically, as Python compares \<^verbatim>\<open>date\<close> and \<^verbatim>\<open>datetime\<close> values.
\<close>

type_synonym date = "nat \<times> nat \<times> nat"

type_synonym datetime = "date \<times> nat"

definition year :: "date \<Rightarrow> nat" where
  "year d = fst d"

definition date_of :: "datetime \<Rightarrow> date" where
  "date_of t = fst t"

definition time_of :: "nat \<Rightarrow> nat \<Rightarrow> nat \<Rightarrow> nat" where
  "time_of h m s = ((h * 60 + m) * 60 + s) * 1000000000"

definition combine :: "date \<Rightarrow> nat \<Rightarrow> datetime" where
  "combine d t = (d, t)"

datatype error =
    ValueError string
  | DateParseError string
  | CalendarError

section \<open>SpxDayTime.py: the grid generator\<close>

text \<open>
  \<^verbatim>\<open>datetime.datetime.strptime(s, "%Y-%m-%d")\<close>. The argument is the triple of numbers
  that the three fields of the string denote; strptime raises ValueError unless they form
  a date of the proleptic Gregorian calendar with a year from 1 to 9999.
\<close>

definition is_leap :: "nat \<Rightarrow> bool" where
  "is_leap y = (y mod 4 = 0 \<and> (y mod 100 \<noteq> 0 \<or> y mod 400 = 0))"

definition days_in_month :: "nat \<Rightarrow> nat \<Rightarrow> nat" where
  "days_in_month y m =
     (if m = 2 then (if is_leap y then 29 else 28)
      else if m = 4 \<or> m = 6 \<or> m = 9 \<or> m = 11 then 30 else 31)"

definition strptime :: "nat \<times> nat \<times> nat \<Rightarrow> error + date" where
  "strptime s =
     (case s of (y, m, d) \<Rightarrow>
        if 1 \<le> y \<and> y \<le> 9999 \<and> 1 \<le> m \<and> m \<le> 12 \<and> 1 \<le> d \<and> d \<le> days_in_month y m
        then Inr (y, m, d)
        else Inl (ValueError ''time data does not match format %Y-%m-%d''))"

fun strptime_all :: "(nat \<times> nat \<times> nat) list \<Rightarrow> error + date list" where
  "strptime_all [] = Inr []"
| "strptime_all (s # ss) =
     (case strptime s of
        Inl e \<Rightarrow> Inl e
      | Inr d \<Rightarrow> (case strptime_all ss of Inl e \<Rightarrow> Inl e | Inr ds \<Rightarrow> Inr (d # ds)))"

text \<open>
  \<^verbatim>\<open>datetime.time.fromisoformat(time + ":00")\<close> on a configured time "HH:MM", given as
  the pair (HH, MM): the seconds are always 0.
\<close>

definition fromisoformat :: "nat \<times> nat \<Rightarrow> error + nat" where
  "fromisoformat hm =
     (case hm of (h, m) \<Rightarrow>
        if h < 24 \<and> m < 60 then Inr (time_of h m 0)
        else Inl (ValueError ''Invalid isoformat string''))"

text \<open>The section \<^verbatim>\<open>spx_day_time_config\<close> of config.yaml, as load_config returns it.\<close>

record config =
  early_close_days :: "(nat \<times> nat \<times> nat) list"
  special_holidays :: "(nat \<times> nat \<times> nat) list"
  valid_times :: "(nat \<times> nat) list"

text \<open>
  A cell of a timestamp column: a string not yet parsed (a column read from CSV) or a
  timestamp (a datetime64 column).
\<close>

datatype cell = Raw string | Stamp datetime

text \<open>The inner loop \<^verbatim>\<open>for time in valid_times\<close>, appending to trading_days.\<close>

fun times_loop :: "date \<Rightarrow> (nat \<times> nat) list \<Rightarrow> datetime list \<Rightarrow> error + datetime list" where
  "times_loop day [] trading_days = Inr trading_days"
| "times_loop day (time # rest) trading_days =
     (case fromisoformat time of
        Inl e \<Rightarrow> Inl e
      | Inr t \<Rightarrow> times_loop day rest (trading_days @ [combine day t]))"

text \<open>The outer loop \<^verbatim>\<open>for day in valid_trading_days\<close>.\<close>

fun days_loop ::
  "date list \<Rightarrow> date list \<Rightarrow> (nat \<times> nat) list \<Rightarrow> date list \<Rightarrow> datetime list \<Rightarrow> error + datetime list"
where
  "days_loop early_close special vtimes [] trading_days = Inr trading_days"
| "days_loop early_close special vtimes (day # days) trading_days =
     (if day \<notin> set early_close \<and> day \<notin> set special
      then (case times_loop day vtimes trading_days of
              Inl e \<Rightarrow> Inl e
            | Inr trading_days' \<Rightarrow> days_loop early_close special vtimes days trading_days')
      else days_loop early_close special vtimes days trading_days)"

definition InvalidRangeError :: error where
  "InvalidRangeError = ValueError ''start_date cannot be later than end_date.''"

definition UnsupportedRangeError :: error where
  "UnsupportedRangeError = ValueError ''Input dates must be between 2023 and 2025.''"

text \<open>
  Everything after the two range checks: the calendar lookup, the exclusion lists and the
  loops. The calendar \<^verbatim>\<open>cboe.valid_days\<close> is a parameter; \<open>None\<close> is a failing lookup.
\<close>

definition build_trading_days ::
  "(date \<Rightarrow> date \<Rightarrow> date list option) \<Rightarrow> config \<Rightarrow> date \<Rightarrow> date \<Rightarrow> error + cell list"
where
  "build_trading_days valid_days cfg start_date end_date =
     (case valid_days start_date end_date of
        None \<Rightarrow> Inl CalendarError
      | Some valid_trading_days \<Rightarrow>
          (case strptime_all (early_close_days cfg) of
             Inl e \<Rightarrow> Inl e
           | Inr early_close \<Rightarrow>
               (case strptime_all (special_holidays cfg) of
                  Inl e \<Rightarrow> Inl e
                | Inr special \<Rightarrow>
                    (case days_loop early_close special (valid_times cfg) valid_trading_days [] of
                       Inl e \<Rightarrow> Inl e
                     | Inr trading_days \<Rightarrow> Inr (map Stamp trading_days)))))"

definition generate_master_trading_day_list ::
  "(date \<Rightarrow> date \<Rightarrow> date list option) \<Rightarrow> config \<Rightarrow> nat \<times> nat \<times> nat \<Rightarrow> nat \<times> nat \<times> nat
     \<Rightarrow> error + cell list"
where
  "generate_master_trading_day_list valid_days cfg start_str end_str =
     (case strptime start_str of
        Inl e \<Rightarrow> Inl e
      | Inr start_date \<Rightarrow>
          (case strptime end_str of
             Inl e \<Rightarrow> Inl e
           | Inr end_date \<Rightarrow>
               if start_date > end_date then Inl InvalidRangeError
               else if year start_date < 2023 \<or> year end_date > 2025 then Inl UnsupportedRangeError
               else build_trading_days valid_days cfg start_date end_date))"

section \<open>Tables\<close>

text \<open>
  A value of a payload column, and a row of a record table: its EntryTime cell and its
  other columns in order. A float is carried as the mantissa and decimal exponent of its
  literal; no arithmetic is done on payload values.
\<close>

datatype val = IntV int | FloatV int int | StrV string | BoolV bool

record row =
  EntryTime :: cell
  payload :: "(string \<times> val) list"

text \<open>
  \<^verbatim>\<open>pd.to_datetime\<close> on a column. A timestamp is kept; a string is parsed by \<open>parse\<close>,
  the conversion pandas applies to a string of the column, \<open>None\<close> where it raises.
  Missing values (NaT) are not represented.
\<close>

definition to_datetime :: "(string \<Rightarrow> datetime option) \<Rightarrow> cell \<Rightarrow> error + datetime" where
  "to_datetime parse c =
     (case c of
        Stamp t \<Rightarrow> Inr t
      | Raw s \<Rightarrow> (case parse s of Some t \<Rightarrow> Inr t | None \<Rightarrow> Inl (DateParseError s)))"

fun to_datetime_col :: "(string \<Rightarrow> datetime option) \<Rightarrow> cell list \<Rightarrow> error + datetime list" where
  "to_datetime_col parse [] = Inr []"
| "to_datetime_col parse (c # cs) =
     (case to_datetime parse c of
        Inl e \<Rightarrow> Inl e
      | Inr t \<Rightarrow> (case to_datetime_col parse cs of Inl e \<Rightarrow> Inl e | Inr ts \<Rightarrow> Inr (t # ts)))"

text \<open>
  The assignment \<^verbatim>\<open>df['EntryTime'] = ...\<close> of the parsed column: every row gets its
  timestamp, and is paired with it so that later comparisons read a timestamp.
\<close>

definition assign_EntryTime :: "row list \<Rightarrow> datetime list \<Rightarrow> (datetime \<times> row) list" where
  "assign_EntryTime df ts = map (\<lambda>(r, t). (t, r\<lparr>EntryTime := Stamp t\<rparr>)) (zip df ts)"

section \<open>filter\_early\_close\_data.py: the filter stage\<close>

text \<open>
  The function assigns to a column of both of its arguments, so the model returns the
  caller's table and grid as they are after the call, beside the result (or the exception).
\<close>

definition filter_early_close_data ::
  "(string \<Rightarrow> datetime option) \<Rightarrow> row list \<Rightarrow> cell list \<Rightarrow> date \<Rightarrow> date
     \<Rightarrow> (row list \<times> cell list) \<times> (error + row list)"
where
  "filter_early_close_data parse df master_trading_day_list start_date end_date =
     (let start_datetime = (start_date, time_of 0 0 0);
          end_datetime = (end_date, time_of 23 59 59)
      in case to_datetime_col parse (map EntryTime df) of
           Inl e \<Rightarrow> ((df, master_trading_day_list), Inl e)
         | Inr ts \<Rightarrow>
             (let df0 = assign_EntryTime df ts;
                  df1 = filter (\<lambda>(t, r). t \<ge> start_datetime \<and> t \<le> end_datetime) df0
              in case to_datetime_col parse master_trading_day_list of
                   Inl e \<Rightarrow> ((map snd df0, master_trading_day_list), Inl e)
                 | Inr ms \<Rightarrow>
                     ((map snd df0, map Stamp ms),
                      Inr (map snd (filter (\<lambda>(t, r). t \<in> set ms) df1)))))"

section \<open>pad\_datetime.py: the padding stage\<close>

definition placeholder :: "datetime \<Rightarrow> row" where
  "placeholder missing_time =
     \<lparr>EntryTime = Stamp missing_time,
      payload =
        [(''TradeID'', IntV 0),
         (''OptionType'', StrV ''''),
         (''Delta'', StrV ''''),
         (''ShortStrike'', StrV ''''),
         (''LongStrike'', StrV ''''),
         (''Width'', StrV ''''),
         (''Premium'', StrV ''''),
         (''ProfitTarget'', StrV ''''),
         (''ProfitDateTime'', StrV ''''),
         (''ProfitPrice'', StrV ''''),
         (''StopLossDateTime'', StrV ''''),
         (''StopLossTarget'', StrV ''''),
         (''StopLossPrice'', StrV ''''),
         (''IsWin'', StrV ''''),
         (''Outcome'', StrV ''''),
         (''ProfitLoss'', IntV 0),
         (''ProfitLossAfterSlippage'', IntV 0),
         (''CommissionFees'', StrV ''''),
         (''Slippage'', StrV ''''),
         (''LossMultiple'', StrV ''''),
         (''TradesToday'', StrV ''''),
         (''VIX'', StrV ''''),
         (''OpenDate'', StrV ''''),
         (''OpenTime'', StrV ''''),
         (''CloseDate'', StrV ''''),
         (''CloseTime'', StrV '''')]\<rparr>"

text \<open>
  A Python set is a list without duplicates; the order in which the loop over
  missing_entry_times_set visits it does not reach the result, which is sorted, and whose
  placeholders have pairwise different timestamps, none shared with a row of the input.
  \<^verbatim>\<open>sort_values\<close> is the stable \<open>sort_key\<close>; pandas leaves the order of rows with
  equal timestamps open. \<^verbatim>\<open>pd.concat\<close> is list append: a row is the list of its own
  cells, and a column that one of the two tables lacks, which pandas would fill with NaN,
  has no cell in that table's rows. The window bounds are dates already parsed; the
  function never assigns to the grid, which is returned as it came.
\<close>

definition in_window :: "date \<Rightarrow> date \<Rightarrow> datetime \<Rightarrow> bool" where
  "in_window start_date end_date t = (start_date \<le> date_of t \<and> date_of t \<le> end_date)"

definition pad_entry_times ::
  "(string \<Rightarrow> datetime option) \<Rightarrow> row list \<Rightarrow> cell list \<Rightarrow> date \<Rightarrow> date
     \<Rightarrow> (row list \<times> cell list) \<times> (error + row list)"
where
  "pad_entry_times parse df master_trading_day_list start_date end_date =
     (case to_datetime_col parse master_trading_day_list of
        Inl e \<Rightarrow> ((df, master_trading_day_list), Inl e)
      | Inr ms \<Rightarrow>
          (let valid_entry_times_set = filter (in_window start_date end_date) (remdups ms)
           in case to_datetime_col parse (map EntryTime df) of
                Inl e \<Rightarrow> ((df, master_trading_day_list), Inl e)
              | Inr ts \<Rightarrow>
                  (let df0 = assign_EntryTime df ts;
                       existing_entry_times_set = filter (in_window start_date end_date) (remdups ts);
                       missing_entry_times_set =
                         filter (\<lambda>t. t \<notin> set existing_entry_times_set) valid_entry_times_set;
                       padded_rows = map (\<lambda>t. (t, placeholder t)) missing_entry_times_set;
                       df1 = df0 @ padded_rows
                   in ((map snd df0, master_trading_day_list),
                       Inr (map snd (sort_key fst df1))))))"

section \<open>Concrete inputs\<close>

text \<open>
  A reading of the format \<^verbatim>\<open>YYYY-MM-DD HH:MM:SS\<close>, in which the tables of the repository
  write their timestamps; it stands for \<open>parse\<close> wherever a theorem is run on an example.
\<close>

definition digit_val :: "char \<Rightarrow> nat option" where
  "digit_val c =
     (let n = (of_char c :: nat) in if 48 \<le> n \<and> n \<le> 57 then Some (n - 48) else None)"

fun digits :: "string \<Rightarrow> nat \<Rightarrow> nat option" where
  "digits [] acc = Some acc"
| "digits (c # cs) acc =
     (case digit_val c of None \<Rightarrow> None | Some d \<Rightarrow> digits cs (10 * acc + d))"

definition field :: "string \<Rightarrow> nat \<Rightarrow> nat \<Rightarrow> nat option" where
  "field s i n = digits (take n (drop i s)) 0"

definition iso_parse :: "string \<Rightarrow> datetime option" where
  "iso_parse s =
     (if length s = 19 \<and> map (\<lambda>i. s ! i) [4, 7, 10, 13, 16] = ''-- ::''
      then (case (field s 0 4, field s 5 2, field s 8 2, field s 11 2, field s 14 2, field s 17 2) of
              (Some y, Some mo, Some d, Some h, Some mi, Some sec) \<Rightarrow>
                (case strptime (y, mo, d) of
                   Inl e \<Rightarrow> None
                 | Inr day \<Rightarrow>
                     if h < 24 \<and> mi < 60 \<and> sec < 60 then Some (combine day (time_of h mi sec))
                     else None)
            | _ \<Rightarrow> None)
      else None)"

text \<open>
  The table and the master list that test_pad_datetime.py builds, and the window it pads.
\<close>

definition test_row ::
  "nat \<Rightarrow> nat \<Rightarrow> int \<Rightarrow> string \<Rightarrow> val list \<Rightarrow> string \<Rightarrow> val \<Rightarrow> bool \<Rightarrow> string \<Rightarrow> val \<Rightarrow> val list
     \<Rightarrow> string \<Rightarrow> string \<Rightarrow> row"
where
  "test_row h m trade_id option_type strikes stop_time stop_price is_win outcome pl costs
     open_time close_time =
     \<lparr>EntryTime = Stamp ((2023, 1, 3), time_of h m 0),
      payload =
        [(''TradeID'', IntV trade_id), (''OptionType'', StrV option_type)]
        @ zip [''Delta'', ''ShortStrike'', ''LongStrike'', ''Width'', ''Premium''] strikes
        @ [(''ProfitTarget'', StrV ''P100''),
           (''ProfitDateTime'', StrV ''''),
           (''ProfitPrice'', StrV ''''),
           (''StopLossDateTime'', StrV stop_time),
           (''StopLossTarget'', StrV ''2x''),
           (''StopLossPrice'', stop_price),
           (''IsWin'', BoolV is_win),
           (''Outcome'', StrV outcome),
           (''ProfitLoss'', pl),
           (''ProfitLossAfterSlippage'', pl)]
        @ zip [''CommissionFees'', ''Slippage'', ''LossMultiple'', ''TradesToday'', ''VIX''] costs
        @ [(''OpenDate'', StrV ''2023-01-03''),
           (''OpenTime'', StrV open_time),
           (''CloseDate'', StrV ''2023-01-03''),
           (''CloseTime'', StrV close_time)]\<rparr>"

definition test_df :: "row list" where
  "test_df =
     [test_row 9 33 5015667 ''P''
        [FloatV 0 0, FloatV 3825 0, FloatV 3770 0, FloatV 55 0, FloatV 47 (- 1)]
        ''1/3/2023 10:18:00 AM'' (FloatV 141 (- 1)) False ''Stop Loss'' (FloatV (- 94) (- 1))
        [IntV 0, FloatV 2 0, IntV 26, FloatV 2309 (- 2), FloatV 2309 (- 2)]
        ''09:33:00'' ''10:18:00'',
      test_row 10 0 5016231 ''P''
        [FloatV 0 0, FloatV 3840 0, FloatV 3785 0, FloatV 55 0, FloatV 41 (- 1)]
        ''1/3/2023 9:52:00 AM'' (FloatV 123 (- 1)) False ''Stop Loss'' (FloatV (- 82) (- 1))
        [IntV 0, FloatV 2 0, IntV 0, FloatV 2309 (- 2), FloatV 2309 (- 2)]
        ''09:45:00'' ''09:52:00'',
      test_row 10 15 5027967 ''C''
        [FloatV 0 0, FloatV 3860 0, FloatV 3915 0, FloatV 55 0, FloatV 445 (- 2)]
        '''' (StrV '''') True ''Expiration'' (FloatV 445 (- 2))
        [IntV 0, FloatV 0 0, IntV 26, FloatV 2309 (- 2), FloatV 2309 (- 2)]
        ''10:00:00'' ''10:15:00'']"

definition test_grid :: "datetime list" where
  "test_grid =
     map (\<lambda>(h, m). ((2023, 1, 3), time_of h m 0))
       [(9, 33), (9, 45), (10, 0), (10, 15), (10, 30), (10, 45)]"

definition test_master :: "cell list" where
  "test_master = map Stamp test_grid"

definition test_times :: "datetime list" where
  "test_times = [((2023, 1, 3), time_of 9 33 0), ((2023, 1, 3), time_of 10 0 0), ((2023, 1, 3), time_of 10 15 0)]"

text \<open>
  A calendar and a configuration that give this master list: two sessions, the second an
  early close, and the six times of the list.
\<close>

definition test_calendar :: "date \<Rightarrow> date \<Rightarrow> date list option" where
  "test_calendar start_date end_date = Some [(2023, 1, 3), (2023, 7, 3)]"

definition test_config :: config where
  "test_config =
     \<lparr>early_close_days = [(2023, 7, 3)],
      special_holidays = [],
      valid_times = [(9, 33), (9, 45), (10, 0), (10, 15), (10, 30), (10, 45)]\<rparr>"

text \<open>A table as read from CSV, its timestamp still a string.\<close>

definition csv_df :: "row list" where
  "csv_df = [\<lparr>EntryTime = Raw ''2023-01-03 09:33:00'', payload = [(''TradeID'', IntV 5015667)]\<rparr>]"

section \<open>Names used in the statements\<close>

text \<open>
  The value of missing_entry_times_set in pad_entry_times, from the parsed grid \<open>ms\<close>
  and the parsed timestamps \<open>ts\<close> of the table; and the grid points that the inner
  loop of the generator appends for one day.
\<close>

definition missing_times :: "datetime list \<Rightarrow> datetime list \<Rightarrow> date \<Rightarrow> date \<Rightarrow> datetime list" where
  "missing_times ms ts s e = filter (\<lambda>t. t \<notin> set ts) (filter (in_window s e) (remdups ms))"

definition day_points :: "(nat \<times> nat) list \<Rightarrow> date \<Rightarrow> datetime list" where
  "day_points vt day = map (\<lambda>(h, m). combine day (time_of h m 0)) vt"

section \<open>Parsed columns\<close>

lemma to_datetime_col_length:
  "to_datetime_col parse cs = Inr ts \<Longrightarrow> length ts = length cs"
  by (induction cs arbitrary: ts) (auto split: sum.splits)

lemma to_datetime_col_Stamp: "to_datetime_col parse (map Stamp ts) = Inr ts"
  by (induction ts) (auto simp: to_datetime_def)

lemma to_datetime_col_cells:
  "to_datetime_col parse cs = Inr ts \<Longrightarrow>
   list_all2 (\<lambda>c t. c = Stamp t \<or> (\<exists>s. c = Raw s \<and> parse s = Some t)) cs ts"
  by (induction cs arbitrary: ts) (auto simp: to_datetime_def split: sum.splits cell.splits option.splits)

lemma to_datetime_col_all_Stamp:
  "to_datetime_col parse cs = Inr ts \<Longrightarrow> \<forall>c\<in>set cs. \<exists>t. c = Stamp t \<Longrightarrow> cs = map Stamp ts"
  by (induction cs arbitrary: ts) (auto simp: to_datetime_def split: sum.splits cell.splits option.splits)

lemma assign_fst: "length ts = length df \<Longrightarrow> map fst (assign_EntryTime df ts) = ts"
  by (induction df ts rule: list_induct2') (auto simp: assign_EntryTime_def)


lemma assign_payload:
  "length ts = length df \<Longrightarrow> map (payload \<circ> snd) (assign_EntryTime df ts) = map payload df"
  by (induction df ts rule: list_induct2') (auto simp: assign_EntryTime_def)

lemma assign_EntryTime_cells:
  "map (EntryTime \<circ> snd) (assign_EntryTime df ts) = map (Stamp \<circ> fst) (assign_EntryTime df ts)"
  by (auto simp: assign_EntryTime_def)

lemma assign_all_Stamp:
  "map EntryTime df = map Stamp ts \<Longrightarrow> map snd (assign_EntryTime df ts) = df"
  by (induction df arbitrary: ts) (auto simp: assign_EntryTime_def)

lemma keyed_rows:
  "\<forall>(t, r)\<in>set (assign_EntryTime df ts @ map (\<lambda>t. (t, placeholder t)) xs). EntryTime r = Stamp t"
  by (auto simp: assign_EntryTime_def placeholder_def)

lemma keyed_EntryTime:
  assumes "\<forall>(t, r)\<in>set X. EntryTime r = Stamp t"
  shows "map EntryTime (map snd X) = map Stamp (map fst X)"
  using assms by (induction X) auto

section \<open>Times of day\<close>

lemma time_of_inj:
  assumes "time_of h m 0 = time_of h' m' 0" and "m < 60" and "m' < 60"
  shows "h = h' \<and> m = m'"
proof -
  from assms(1) have "(h * 60 + m) * 60 * 1000000000 = (h' * 60 + m') * 60 * 1000000000"
    by (simp only: time_of_def add_0_right)
  then have "(h * 60 + m) * 60 = (h' * 60 + m') * 60"
    by (simp only: mult_cancel_right) simp
  then have eq: "h * 60 + m = h' * 60 + m'"
    by (simp only: mult_cancel_right) simp
  have "(h * 60 + m) div 60 = h" "(h * 60 + m) mod 60 = m"
    using assms(2) by simp_all
  moreover have "(h' * 60 + m') div 60 = h'" "(h' * 60 + m') mod 60 = m'"
    using assms(3) by simp_all
  ultimately show ?thesis using eq by metis
qed

lemma time_of_eq_iff:
  "m < 60 \<Longrightarrow> m' < 60 \<Longrightarrow> time_of h m 0 = time_of h' m' 0 \<longleftrightarrow> h = h' \<and> m = m'"
  using time_of_inj by blast

lemma time_of_le_iff: "time_of h m 0 \<le> time_of h' m' 0 \<longleftrightarrow> h * 60 + m \<le> h' * 60 + m'"
  unfolding time_of_def by (simp only: add_0_right mult_le_cancel2) simp

lemma time_of_less_iff: "time_of h m 0 < time_of h' m' 0 \<longleftrightarrow> h * 60 + m < h' * 60 + m'"
  unfolding time_of_def by (simp only: add_0_right mult_less_cancel2) simp

lemma time_of_bound:
  assumes "h < 24" and "m < 60"
  shows "time_of h m 0 \<le> time_of 23 59 59"
proof -
  have "h * 60 + m \<le> 23 * 60 + 59" using assms by simp
  then have "(h * 60 + m) * 60 + 0 \<le> (23 * 60 + 59) * 60 + 59" by simp
  then show ?thesis unfolding time_of_def by (rule mult_le_mono1)
qed

section \<open>The grid generator\<close>

lemma strptime_Inr: "strptime a = Inr d \<Longrightarrow>
   d = a \<and> 1 \<le> fst d \<and> fst d \<le> 9999 \<and> 1 \<le> fst (snd d) \<and> fst (snd d) \<le> 12
   \<and> 1 \<le> snd (snd d) \<and> snd (snd d) \<le> 31"
  by (cases a) (auto simp: strptime_def days_in_month_def split: if_splits)

lemma strptime_Inl: "strptime a = Inl e \<Longrightarrow> e = ValueError ''time data does not match format %Y-%m-%d''"
  by (cases a) (auto simp: strptime_def split: if_splits)

lemma strptime_all_Inl:
  "strptime_all xs = Inl e \<Longrightarrow> e = ValueError ''time data does not match format %Y-%m-%d''"
  by (induction xs arbitrary: e) (auto split: sum.splits dest: strptime_Inl)

lemma date_lower: "strptime a = Inr d \<Longrightarrow> ((2023, 1, 1) \<le> d) = (2023 \<le> year d)"
  by (drule strptime_Inr, cases d) (auto simp: year_def)

lemma date_upper: "strptime a = Inr d \<Longrightarrow> (d \<le> (2025, 12, 31)) = (year d \<le> 2025)"
  by (drule strptime_Inr, cases d) (auto simp: year_def)

lemma year_mono: "(d::date) \<le> d' \<Longrightarrow> year d \<le> year d'"
  by (cases d, cases d') (auto simp: year_def)

lemma fromisoformat_Inl: "fromisoformat hm = Inl e \<Longrightarrow> e = ValueError ''Invalid isoformat string''"
  by (cases hm) (auto simp: fromisoformat_def split: if_splits)

lemma times_loop_Inl:
  "times_loop day vt acc = Inl e \<Longrightarrow> e = ValueError ''Invalid isoformat string''"
  by (induction vt arbitrary: acc) (auto split: sum.splits dest: fromisoformat_Inl)

lemma days_loop_Inl:
  "days_loop ec sp vt days acc = Inl e \<Longrightarrow> e = ValueError ''Invalid isoformat string''"
  by (induction days arbitrary: acc) (auto split: sum.splits if_splits dest: times_loop_Inl)

lemma times_loop_Inr:
  "times_loop day vt acc = Inr res \<Longrightarrow> res = acc @ day_points vt day"
proof (induction vt arbitrary: acc)
  case Nil
  then show ?case by (simp add: day_points_def)
next
  case (Cons hm vt)
  from Cons.prems obtain t where t: "fromisoformat hm = Inr t"
    and rest: "times_loop day vt (acc @ [combine day t]) = Inr res"
    by (auto split: sum.splits)
  from t have "t = time_of (fst hm) (snd hm) 0"
    by (cases hm) (auto simp: fromisoformat_def split: if_splits)
  with Cons.IH[OF rest] show ?case by (cases hm) (simp add: day_points_def)
qed

lemma times_loop_total:
  "\<forall>(h, m)\<in>set vt. h < 24 \<and> m < 60 \<Longrightarrow> \<exists>res. times_loop day vt acc = Inr res"
  by (induction vt arbitrary: acc) (auto simp: fromisoformat_def)

lemma times_loop_valid:
  "times_loop day vt acc = Inr res \<Longrightarrow> \<forall>(h, m)\<in>set vt. h < 24 \<and> m < 60"
  by (induction vt arbitrary: acc) (auto simp: fromisoformat_def split: sum.splits if_splits)

lemma days_loop_Inr:
  "days_loop ec sp vt days acc = Inr res \<Longrightarrow>
   res = acc @ concat (map (day_points vt) (filter (\<lambda>d. d \<notin> set ec \<and> d \<notin> set sp) days))"
proof (induction days arbitrary: acc)
  case Nil
  then show ?case by simp
next
  case (Cons d days)
  show ?case
  proof (cases "d \<notin> set ec \<and> d \<notin> set sp")
    case True
    with Cons.prems obtain r where r: "times_loop d vt acc = Inr r"
      and rest: "days_loop ec sp vt days r = Inr res"
      by (auto split: sum.splits)
    from Cons.IH[OF rest] times_loop_Inr[OF r] True show ?thesis by simp
  next
    case False
    with Cons.prems have "days_loop ec sp vt days acc = Inr res" by auto
    from Cons.IH[OF this] False show ?thesis by auto
  qed
qed

lemma days_loop_total:
  "\<forall>(h, m)\<in>set vt. h < 24 \<and> m < 60 \<Longrightarrow> \<exists>res. days_loop ec sp vt days acc = Inr res"
proof (induction days arbitrary: acc)
  case Nil
  then show ?case by simp
next
  case (Cons d days)
  obtain r where "times_loop d vt acc = Inr r" using times_loop_total[OF Cons.prems] by blast
  then show ?case using Cons.IH[OF Cons.prems] by auto
qed

lemma days_loop_valid:
  "days_loop ec sp vt days acc = Inr res \<Longrightarrow>
   filter (\<lambda>d. d \<notin> set ec \<and> d \<notin> set sp) days \<noteq> [] \<Longrightarrow> \<forall>(h, m)\<in>set vt. h < 24 \<and> m < 60"
  by (induction days arbitrary: acc) (auto split: sum.splits if_splits dest: times_loop_valid)

lemma length_concat_day_points: "length (concat (map (day_points vt) ds)) = length ds * length vt"
  by (induction ds) (auto simp: day_points_def)

lemma length_filter_compl:
  "length (filter (\<lambda>d. d \<notin> A \<and> d \<notin> B) days) = length days - length (filter (\<lambda>d. d \<in> A \<or> d \<in> B) days)"
proof -
  have "length (filter (\<lambda>d. d \<in> A \<or> d \<in> B) days) + length (filter (\<lambda>d. \<not> (d \<in> A \<or> d \<in> B)) days) = length days"
    by (rule sum_length_filter_compl)
  then show ?thesis by simp
qed

lemma day_points_distinct:
  assumes "distinct vt" and "\<forall>(h, m)\<in>set vt. h < 24 \<and> m < 60"
  shows "distinct (day_points vt d)"
proof -
  have "inj_on (\<lambda>(h, m). combine d (time_of h m 0)) (set vt)"
  proof (rule inj_onI)
    fix x y
    assume x: "x \<in> set vt" and y: "y \<in> set vt"
      and eq: "(case x of (h, m) \<Rightarrow> combine d (time_of h m 0)) = (case y of (h, m) \<Rightarrow> combine d (time_of h m 0))"
    obtain h m h' m' where xy: "x = (h, m)" "y = (h', m')" by (cases x, cases y)
    from x y assms(2) xy have "m < 60" "m' < 60" by auto
    moreover from eq xy have "time_of h m 0 = time_of h' m' 0" by (simp add: combine_def)
    ultimately have "h = h' \<and> m = m'" by (rule time_of_inj[rotated 1])
    with xy show "x = y" by simp
  qed
  with assms(1) show ?thesis unfolding day_points_def by (simp add: distinct_map)
qed

lemma day_points_date: "t \<in> set (day_points vt d) \<Longrightarrow> fst t = d"
  by (auto simp: day_points_def combine_def)

lemma day_points_bound:
  assumes "\<forall>(h, m)\<in>set vt. h < 24 \<and> m < 60" and "t \<in> set (day_points vt d)"
  shows "snd t \<le> time_of 23 59 59"
proof -
  from assms(2) obtain h m where hm: "(h, m) \<in> set vt" and t: "t = combine d (time_of h m 0)"
    by (auto simp: day_points_def)
  from assms(1) hm have "h < 24" "m < 60" by auto
  then have "time_of h m 0 \<le> time_of 23 59 59" by (rule time_of_bound)
  with t show ?thesis by (simp add: combine_def)
qed

lemma concat_day_points_distinct:
  assumes "distinct vt" and "\<forall>(h, m)\<in>set vt. h < 24 \<and> m < 60"
  shows "distinct ds \<Longrightarrow> distinct (concat (map (day_points vt) ds))"
proof (induction ds)
  case Nil
  then show ?case by simp
next
  case (Cons d ds)
  have "set (day_points vt d) \<inter> set (concat (map (day_points vt) ds)) = {}"
    using Cons.prems by (auto dest!: day_points_date)
  then show ?case using Cons day_points_distinct[OF assms] by simp
qed

lemma build_errors:
  "build_trading_days cal cfg sd ed = Inl e \<Longrightarrow>
   e = CalendarError \<or> e = ValueError ''time data does not match format %Y-%m-%d'' \<or>
   e = ValueError ''Invalid isoformat string''"
  by (auto simp: build_trading_days_def split: option.splits sum.splits
      dest: strptime_all_Inl days_loop_Inl)

lemma build_not_range_error:
  "build_trading_days cal cfg sd ed \<noteq> Inl InvalidRangeError"
  "build_trading_days cal cfg sd ed \<noteq> Inl UnsupportedRangeError"
  by (auto simp: InvalidRangeError_def UnsupportedRangeError_def dest!: build_errors)

lemma build_result:
  assumes "valid_days sd ed = Some days"
    and "strptime_all (early_close_days cfg) = Inr ec"
    and "strptime_all (special_holidays cfg) = Inr sp"
    and "\<forall>(h, m)\<in>set (valid_times cfg). h < 24 \<and> m < 60"
  shows "build_trading_days valid_days cfg sd ed =
    Inr (map Stamp (concat (map (day_points (valid_times cfg))
       (filter (\<lambda>d. d \<notin> set ec \<and> d \<notin> set sp) days))))"
proof -
  obtain res where res: "days_loop ec sp (valid_times cfg) days [] = Inr res"
    using days_loop_total[OF assms(4)] by blast
  from days_loop_Inr[OF res] res assms(1-3) show ?thesis
    by (simp add: build_trading_days_def)
qed

lemma build_Inr:
  assumes "build_trading_days cal cfg sd ed = Inr grid"
  shows "\<exists>ts. grid = map Stamp ts \<and> (\<forall>t\<in>set ts. snd t \<le> time_of 23 59 59)"
proof -
  from assms obtain days ec sp res where
    res: "days_loop ec sp (valid_times cfg) days [] = Inr res" and g: "grid = map Stamp res"
    by (auto simp: build_trading_days_def split: option.splits sum.splits)
  let ?ds = "filter (\<lambda>d. d \<notin> set ec \<and> d \<notin> set sp) days"
  have r: "res = concat (map (day_points (valid_times cfg)) ?ds)"
    using days_loop_Inr[OF res] by simp
  have "\<forall>t\<in>set res. snd t \<le> time_of 23 59 59"
  proof (cases "?ds = []")
    case True
    then show ?thesis using r by simp
  next
    case False
    from days_loop_valid[OF res False] show ?thesis
      unfolding r by (auto dest: day_points_bound)
  qed
  with g show ?thesis by blast
qed

lemma generate_parsed:
  "strptime a = Inr sd \<Longrightarrow> strptime b = Inr ed \<Longrightarrow>
   generate_master_trading_day_list cal cfg a b =
     (if sd > ed then Inl InvalidRangeError
      else if year sd < 2023 \<or> year ed > 2025 then Inl UnsupportedRangeError
      else build_trading_days cal cfg sd ed)"
  by (simp add: generate_master_trading_day_list_def)

lemma generate_Inr:
  assumes "generate_master_trading_day_list cal cfg a b = Inr grid"
  shows "\<exists>ts. grid = map Stamp ts \<and> (\<forall>t\<in>set ts. snd t \<le> time_of 23 59 59)"
proof -
  from assms obtain sd ed where "build_trading_days cal cfg sd ed = Inr grid"
    by (auto simp: generate_master_trading_day_list_def split: sum.splits if_splits)
  then show ?thesis by (rule build_Inr)
qed

section \<open>The example inputs\<close>

lemma test_master_cast: "to_datetime_col parse test_master = Inr test_grid"
  by (simp add: test_master_def to_datetime_col_Stamp)

lemma test_df_cells: "map EntryTime test_df = map Stamp test_times"
  by (simp add: test_df_def test_row_def test_times_def)

lemma test_df_cast: "to_datetime_col parse (map EntryTime test_df) = Inr test_times"
  by (simp only: test_df_cells to_datetime_col_Stamp)

lemma test_times_in_grid:
  "\<forall>t\<in>set test_times. t \<in> set test_grid \<and> in_window (2023, 1, 1) (2023, 12, 31) t"
  by (simp add: test_times_def test_grid_def in_window_def date_of_def)

lemma test_times_distinct: "distinct test_times"
  by (simp add: test_times_def time_of_eq_iff)

lemma digit_vals:
  "digit_val CHR ''0'' = Some 0" "digit_val CHR ''1'' = Some 1" "digit_val CHR ''2'' = Some 2"
  "digit_val CHR ''3'' = Some 3" "digit_val CHR ''4'' = Some 4" "digit_val CHR ''5'' = Some 5"
  "digit_val CHR ''6'' = Some 6" "digit_val CHR ''7'' = Some 7" "digit_val CHR ''8'' = Some 8"
  "digit_val CHR ''9'' = Some 9"
  by (simp_all add: digit_val_def)

lemma iso_parse_example: "iso_parse ''2023-01-03 09:33:00'' = Some ((2023, 1, 3), time_of 9 33 0)"
  by (simp add: iso_parse_def field_def digit_vals strptime_def days_in_month_def combine_def)

lemma csv_df_cast:
  "to_datetime_col iso_parse (map EntryTime csv_df) = Inr [((2023, 1, 3), time_of 9 33 0)]"
  by (simp add: csv_df_def to_datetime_def iso_parse_example)

lemma strptime_examples:
  "strptime (2023, 1, 1) = Inr (2023, 1, 1)"
  "strptime (2023, 12, 31) = Inr (2023, 12, 31)"
  "strptime (2025, 12, 31) = Inr (2025, 12, 31)"
  "strptime (2026, 1, 1) = Inr (2026, 1, 1)"
  "strptime (2024, 1, 1) = Inr (2024, 1, 1)"
  "strptime (2022, 12, 31) = Inr (2022, 12, 31)"
  "strptime (2023, 7, 3) = Inr (2023, 7, 3)"
  by (simp_all add: strptime_def days_in_month_def)

lemma test_config_parsed:
  "strptime_all (early_close_days test_config) = Inr [(2023, 7, 3)]"
  "strptime_all (special_holidays test_config) = Inr []"
  "\<forall>(h, m)\<in>set (valid_times test_config). h < 24 \<and> m < 60"
  by (simp_all add: test_config_def strptime_examples)

lemma test_calendar_days: "test_calendar sd ed = Some [(2023, 1, 3), (2023, 7, 3)]"
  by (simp add: test_calendar_def)

lemma test_generate:
  "generate_master_trading_day_list test_calendar test_config (2023, 1, 1) (2023, 12, 31) = Inr test_master"
proof -
  have "build_trading_days test_calendar test_config (2023, 1, 1) (2023, 12, 31) = Inr test_master"
    unfolding build_result[where valid_days = test_calendar and cfg = test_config,
        OF test_calendar_days[of "(2023, 1, 1)" "(2023, 12, 31)"] test_config_parsed]
    by (simp add: test_master_def test_grid_def day_points_def combine_def test_config_def)
  then show ?thesis
    by (subst generate_parsed[OF strptime_examples(1) strptime_examples(2)]) (simp add: year_def)
qed

section \<open>Claims about the grid generator\<close>

text \<open>
  Claim C2. For start_date \<open>\<le>\<close> end_date, both in the supported range, the generator
  returns a grid (given a calendar that answers and a configuration whose dates and times
  parse), and the grid has (number of calendar sessions in the range minus those of them
  that are excluded) times (number of configured times) points; they are pairwise
  different when the sessions and the configured times are.
\<close>

theorem generate_cardinality:
  assumes "strptime a = Inr sd" and "strptime b = Inr ed" and "sd \<le> ed"
    and "(2023, 1, 1) \<le> sd \<and> sd \<le> (2025, 12, 31) \<and> (2023, 1, 1) \<le> ed \<and> ed \<le> (2025, 12, 31)"
    and "valid_days sd ed = Some days"
    and "strptime_all (early_close_days cfg) = Inr ec"
    and "strptime_all (special_holidays cfg) = Inr sp"
    and "\<forall>(h, m)\<in>set (valid_times cfg). h < 24 \<and> m < 60"
  shows "\<exists>grid. generate_master_trading_day_list valid_days cfg a b = Inr grid
    \<and> length grid =
        (length days - length (filter (\<lambda>d. d \<in> set ec \<or> d \<in> set sp) days)) * length (valid_times cfg)
    \<and> length grid =
        length (filter (\<lambda>d. d \<notin> set ec \<and> d \<notin> set sp) days) * length (valid_times cfg)
    \<and> (distinct days \<and> distinct (valid_times cfg) \<longrightarrow> distinct grid)"
proof -
  let ?ds = "filter (\<lambda>d. d \<notin> set ec \<and> d \<notin> set sp) days"
  let ?g = "map Stamp (concat (map (day_points (valid_times cfg)) ?ds))"
  have "\<not> (year sd < 2023 \<or> year ed > 2025)"
    using assms(4) unfolding date_lower[OF assms(1)] date_upper[OF assms(2)] by auto
  moreover have "\<not> sd > ed" using assms(3) by (simp add: not_less)
  ultimately have g: "generate_master_trading_day_list valid_days cfg a b = Inr ?g"
    using build_result[of valid_days sd ed days cfg ec sp, OF assms(5-8)] by (simp add: generate_parsed[OF assms(1,2)])
  have l: "length ?g = length ?ds * length (valid_times cfg)"
    by (simp add: length_concat_day_points)
  have l': "length ?g = (length days - length (filter (\<lambda>d. d \<in> set ec \<or> d \<in> set sp) days)) * length (valid_times cfg)"
    unfolding l length_filter_compl ..
  have d: "distinct ?g" if "distinct days \<and> distinct (valid_times cfg)"
    using that concat_day_points_distinct[OF _ assms(8), of ?ds]
    by (simp add: distinct_map inj_on_def)
  from g l l' d show ?thesis by blast
qed

theorem generate_cardinality_witness:
  "strptime (2023, 1, 1) = Inr (2023, 1, 1) \<and> strptime (2023, 12, 31) = Inr (2023, 12, 31)
   \<and> test_calendar (2023, 1, 1) (2023, 12, 31) = Some [(2023, 1, 3), (2023, 7, 3)]
   \<and> (\<exists>grid. generate_master_trading_day_list test_calendar test_config (2023, 1, 1) (2023, 12, 31) = Inr grid
        \<and> length grid = (2 - 1) * 6 \<and> distinct grid)"
proof -
  have r: "((2023::nat, 1::nat, 1::nat) \<le> (2023, 12, 31))"
    "(2023::nat, 1::nat, 1::nat) \<le> (2023, 1, 1) \<and> (2023::nat, 1::nat, 1::nat) \<le> (2025, 12, 31)
      \<and> (2023::nat, 1::nat, 1::nat) \<le> (2023, 12, 31) \<and> (2023::nat, 12::nat, 31::nat) \<le> (2025, 12, 31)"
    by simp_all
  have d: "distinct [(2023::nat, 1::nat, 3::nat), (2023, 7, 3)] \<and> distinct (valid_times test_config)"
    by (simp add: test_config_def)
  from generate_cardinality[where valid_days = test_calendar,
      OF strptime_examples(1) strptime_examples(2) r
        test_calendar_days[of "(2023, 1, 1)" "(2023, 12, 31)"] test_config_parsed] d
  obtain grid where g: "generate_master_trading_day_list test_calendar test_config (2023, 1, 1) (2023, 12, 31) = Inr grid"
    and l: "length grid =
        (length [(2023::nat, 1::nat, 3::nat), (2023, 7, 3)]
          - length (filter (\<lambda>d. d \<in> set [(2023, 7, 3)] \<or> d \<in> set []) [(2023::nat, 1::nat, 3::nat), (2023, 7, 3)]))
        * length (valid_times test_config)"
    and dg: "distinct grid" by blast
  from l have "length grid = (2 - 1) * 6" by (simp add: test_config_def)
  with g dg strptime_examples(1,2) test_calendar_days show ?thesis by blast
qed

text \<open>
  Claim C7, as the code has it. The generator fails with the InvalidRange error whenever
  start_date is later than end_date; it fails with the UnsupportedRange error whenever
  start_date is not later than end_date and one of the two dates lies outside 2023-01-01
  to 2025-12-31; when start_date is not later than end_date and both dates lie inside,
  neither error is raised. The order of the two checks decides the first case: a later
  start_date gives the InvalidRange error also when a date lies outside the range.
\<close>

theorem generate_range_errors:
  assumes "strptime a = Inr sd" and "strptime b = Inr ed"
  shows "(sd > ed \<longrightarrow> generate_master_trading_day_list cal cfg a b = Inl InvalidRangeError)
    \<and> (sd \<le> ed \<and> \<not> ((2023, 1, 1) \<le> sd \<and> sd \<le> (2025, 12, 31) \<and> (2023, 1, 1) \<le> ed \<and> ed \<le> (2025, 12, 31))
         \<longrightarrow> generate_master_trading_day_list cal cfg a b = Inl UnsupportedRangeError)
    \<and> (sd \<le> ed \<and> (2023, 1, 1) \<le> sd \<and> sd \<le> (2025, 12, 31) \<and> (2023, 1, 1) \<le> ed \<and> ed \<le> (2025, 12, 31)
         \<longrightarrow> generate_master_trading_day_list cal cfg a b \<noteq> Inl InvalidRangeError
           \<and> generate_master_trading_day_list cal cfg a b \<noteq> Inl UnsupportedRangeError)"
proof (intro conjI impI)
  assume "sd > ed"
  then show "generate_master_trading_day_list cal cfg a b = Inl InvalidRangeError"
    by (simp add: generate_parsed[OF assms])
next
  assume h: "sd \<le> ed \<and> \<not> ((2023, 1, 1) \<le> sd \<and> sd \<le> (2025, 12, 31) \<and> (2023, 1, 1) \<le> ed \<and> ed \<le> (2025, 12, 31))"
  then have "year sd \<le> year ed" using year_mono by blast
  with h have "year sd < 2023 \<or> year ed > 2025"
    unfolding date_lower[OF assms(1)] date_upper[OF assms(1)] date_lower[OF assms(2)] date_upper[OF assms(2)]
    by linarith
  moreover from h have "\<not> sd > ed" by (simp add: not_less)
  ultimately show "generate_master_trading_day_list cal cfg a b = Inl UnsupportedRangeError"
    by (simp add: generate_parsed[OF assms])
next
  assume h: "sd \<le> ed \<and> (2023, 1, 1) \<le> sd \<and> sd \<le> (2025, 12, 31) \<and> (2023, 1, 1) \<le> ed \<and> ed \<le> (2025, 12, 31)"
  then have "\<not> (year sd < 2023 \<or> year ed > 2025)"
    unfolding date_lower[OF assms(1)] date_upper[OF assms(1)] date_lower[OF assms(2)] date_upper[OF assms(2)]
    by linarith
  moreover from h have "\<not> sd > ed" by (simp add: not_less)
  ultimately have eq: "generate_master_trading_day_list cal cfg a b = build_trading_days cal cfg sd ed"
    by (simp add: generate_parsed[OF assms])
  show "generate_master_trading_day_list cal cfg a b \<noteq> Inl InvalidRangeError"
    unfolding eq by (rule build_not_range_error)
  show "generate_master_trading_day_list cal cfg a b \<noteq> Inl UnsupportedRangeError"
    unfolding eq by (rule build_not_range_error)
qed

theorem generate_range_errors_witness:
  "generate_master_trading_day_list test_calendar test_config (2024, 1, 1) (2023, 1, 1) = Inl InvalidRangeError
   \<and> generate_master_trading_day_list test_calendar test_config (2022, 12, 31) (2023, 12, 31) = Inl UnsupportedRangeError
   \<and> generate_master_trading_day_list test_calendar test_config (2023, 1, 1) (2026, 1, 1) = Inl UnsupportedRangeError
   \<and> generate_master_trading_day_list test_calendar test_config (2023, 1, 1) (2023, 12, 31) \<noteq> Inl InvalidRangeError
   \<and> generate_master_trading_day_list test_calendar test_config (2023, 1, 1) (2023, 12, 31) \<noteq> Inl UnsupportedRangeError"
proof -
  have 1: "generate_master_trading_day_list test_calendar test_config (2024, 1, 1) (2023, 1, 1) = Inl InvalidRangeError"
    using generate_range_errors[OF strptime_examples(5) strptime_examples(1), of test_calendar test_config] by simp
  have 2: "generate_master_trading_day_list test_calendar test_config (2022, 12, 31) (2023, 12, 31) = Inl UnsupportedRangeError"
    using generate_range_errors[OF strptime_examples(6) strptime_examples(2), of test_calendar test_config] by simp
  have 3: "generate_master_trading_day_list test_calendar test_config (2023, 1, 1) (2026, 1, 1) = Inl UnsupportedRangeError"
    using generate_range_errors[OF strptime_examples(1) strptime_examples(4), of test_calendar test_config] by simp
  have 4: "generate_master_trading_day_list test_calendar test_config (2023, 1, 1) (2023, 12, 31) \<noteq> Inl InvalidRangeError
    \<and> generate_master_trading_day_list test_calendar test_config (2023, 1, 1) (2023, 12, 31) \<noteq> Inl UnsupportedRangeError"
    using generate_range_errors[OF strptime_examples(1) strptime_examples(2), of test_calendar test_config] by simp
  from 1 2 3 4 show ?thesis by blast
qed

theorem generate_range_errors_counterexample:
  "generate_master_trading_day_list test_calendar test_config (2026, 1, 1) (2024, 1, 1) = Inl InvalidRangeError
   \<and> InvalidRangeError \<noteq> UnsupportedRangeError
   \<and> \<not> ((2026::nat, 1::nat, 1::nat) \<le> (2025, 12, 31))"
  by (subst generate_parsed[OF strptime_examples(4) strptime_examples(5)])
    (simp add: InvalidRangeError_def UnsupportedRangeError_def)

text \<open>
  Claim C10. The range check reads only the years: for start_date not later than end_date
  the generator fails with the UnsupportedRange error exactly when the year of start_date
  is before 2023 or the year of end_date after 2025, and goes on to build the grid
  otherwise, which is exactly when both dates lie in 2023-01-01 to 2025-12-31.
\<close>

theorem generate_year_check:
  assumes "strptime a = Inr sd" and "strptime b = Inr ed" and "sd \<le> ed"
  shows "(generate_master_trading_day_list cal cfg a b = Inl UnsupportedRangeError
           \<longleftrightarrow> year sd < 2023 \<or> year ed > 2025)
    \<and> (\<not> (year sd < 2023 \<or> year ed > 2025)
         \<longrightarrow> generate_master_trading_day_list cal cfg a b = build_trading_days cal cfg sd ed)
    \<and> (\<not> (year sd < 2023 \<or> year ed > 2025)
         \<longleftrightarrow> (2023, 1, 1) \<le> sd \<and> sd \<le> (2025, 12, 31) \<and> (2023, 1, 1) \<le> ed \<and> ed \<le> (2025, 12, 31))"
proof -
  have g: "generate_master_trading_day_list cal cfg a b =
      (if year sd < 2023 \<or> year ed > 2025 then Inl UnsupportedRangeError
       else build_trading_days cal cfg sd ed)"
  proof -
    from assms(3) have "\<not> sd > ed" by (simp add: not_less)
    then show ?thesis by (simp add: generate_parsed[OF assms(1,2)])
  qed
  have 1: "generate_master_trading_day_list cal cfg a b = Inl UnsupportedRangeError
           \<longleftrightarrow> year sd < 2023 \<or> year ed > 2025"
    using build_not_range_error(2)[of cal cfg sd ed] by (simp add: g)
  have 2: "\<not> (year sd < 2023 \<or> year ed > 2025)
         \<longrightarrow> generate_master_trading_day_list cal cfg a b = build_trading_days cal cfg sd ed"
    by (simp add: g)
  have "year sd \<le> year ed" using assms(3) by (rule year_mono)
  then have 3: "\<not> (year sd < 2023 \<or> year ed > 2025)
         \<longleftrightarrow> (2023, 1, 1) \<le> sd \<and> sd \<le> (2025, 12, 31) \<and> (2023, 1, 1) \<le> ed \<and> ed \<le> (2025, 12, 31)"
    unfolding date_lower[OF assms(1)] date_upper[OF assms(1)] date_lower[OF assms(2)] date_upper[OF assms(2)]
    by linarith
  from 1 2 3 show ?thesis by blast
qed

theorem generate_year_check_witness:
  "strptime (2023, 1, 1) = Inr (2023, 1, 1) \<and> strptime (2025, 12, 31) = Inr (2025, 12, 31)
   \<and> (2023::nat, 1::nat, 1::nat) \<le> (2025, 12, 31)
   \<and> generate_master_trading_day_list test_calendar test_config (2023, 1, 1) (2025, 12, 31)
        = build_trading_days test_calendar test_config (2023, 1, 1) (2025, 12, 31)
   \<and> generate_master_trading_day_list test_calendar test_config (2023, 1, 1) (2025, 12, 31)
        \<noteq> Inl UnsupportedRangeError"
proof -
  have le: "(2023::nat, 1::nat, 1::nat) \<le> (2025, 12, 31)" by simp
  have y: "\<not> (year (2023, 1, 1) < 2023 \<or> year (2025, 12, 31) > 2025)" by (simp add: year_def)
  from generate_year_check[OF strptime_examples(1) strptime_examples(3) le, of test_calendar test_config] y
    strptime_examples(1,3) le
  show ?thesis by blast
qed

section \<open>Claims about the padding stage\<close>

lemma missing_times_set: "set (missing_times ms ts s e) = {t \<in> set ms. in_window s e t} - set ts"
  by (auto simp: missing_times_def)

lemma missing_times_distinct: "distinct (missing_times ms ts s e)"
  by (simp add: missing_times_def)

lemma pad_result:
  assumes "to_datetime_col parse master = Inr ms"
    and "to_datetime_col parse (map EntryTime df) = Inr ts"
  shows "pad_entry_times parse df master s e =
    ((map snd (assign_EntryTime df ts), master),
     Inr (map snd (sort_key fst (assign_EntryTime df ts @
        map (\<lambda>t. (t, placeholder t)) (missing_times ms ts s e)))))"
proof -
  have "filter (\<lambda>t. t \<notin> set (filter (in_window s e) (remdups ts))) (filter (in_window s e) (remdups ms))
      = missing_times ms ts s e"
    unfolding missing_times_def by (rule filter_cong) auto
  then show ?thesis
    using assms by (simp add: pad_entry_times_def Let_def)
qed

lemma pad_out:
  assumes "to_datetime_col parse master = Inr ms"
    and "to_datetime_col parse (map EntryTime df) = Inr ts"
  shows "\<exists>out us. snd (pad_entry_times parse df master s e) = Inr out
     \<and> map EntryTime out = map Stamp us \<and> sorted us
     \<and> mset us = mset ts + mset (missing_times ms ts s e)
     \<and> mset out = mset (map snd (assign_EntryTime df ts)) + mset (map placeholder (missing_times ms ts s e))"
proof -
  let ?X = "assign_EntryTime df ts @ map (\<lambda>t. (t, placeholder t)) (missing_times ms ts s e)"
  let ?S = "sort_key fst ?X"
  have len: "length ts = length df" using to_datetime_col_length[OF assms(2)] by simp
  have "\<forall>(t, r)\<in>set ?S. EntryTime r = Stamp t"
    using keyed_rows[of df ts "missing_times ms ts s e"] by simp
  then have 1: "map EntryTime (map snd ?S) = map Stamp (map fst ?S)"
    by (rule keyed_EntryTime)
  have 2: "sorted (map fst ?S)" by (rule sorted_sort_key)
  have "mset (map fst ?S) = image_mset fst (mset ?X)" by simp
  also have "\<dots> = mset (map fst (assign_EntryTime df ts)) + mset (missing_times ms ts s e)"
    by (simp add: image_mset.compositionality comp_def)
  finally have 3: "mset (map fst ?S) = mset ts + mset (missing_times ms ts s e)"
    using assign_fst[OF len] by simp
  have "mset (map snd ?S) = image_mset snd (mset ?X)" by simp
  also have "\<dots> = mset (map snd (assign_EntryTime df ts)) + mset (map placeholder (missing_times ms ts s e))"
    by (simp add: image_mset.compositionality comp_def)
  finally have 4: "mset (map snd ?S) = mset (map snd (assign_EntryTime df ts)) + mset (map placeholder (missing_times ms ts s e))" .
  have 0: "snd (pad_entry_times parse df master s e) = Inr (map snd ?S)"
    by (simp only: pad_result[OF assms] snd_conv)
  from 0 1 2 3 4 show ?thesis by blast
qed




text \<open>
  Claim C1, as the code has it. The padding stage appends and never drops, so the
  timestamps of its output are those of the input together with the grid timestamps whose
  date lies in the window: every timestamp keeps the multiplicity it has in the input, and
  an in-window grid timestamp that the input lacks occurs exactly once. When the input's
  timestamps are pairwise different and all of them in-window grid timestamps, the output's
  timestamps are exactly the in-window grid timestamps, each once.
\<close>

theorem pad_entry_times_timestamps:
  assumes "to_datetime_col parse master = Inr ms"
    and "to_datetime_col parse (map EntryTime df) = Inr ts"
  shows "\<exists>out us. snd (pad_entry_times parse df master s e) = Inr out
     \<and> map EntryTime out = map Stamp us
     \<and> set us = set ts \<union> {t \<in> set ms. in_window s e t}
     \<and> (\<forall>t. count (mset us) t =
            count (mset ts) t + (if t \<in> set ms \<and> in_window s e t \<and> t \<notin> set ts then 1 else 0))
     \<and> (distinct ts \<and> set ts \<subseteq> {t \<in> set ms. in_window s e t}
          \<longrightarrow> distinct us \<and> set us = {t \<in> set ms. in_window s e t})"
proof -
  let ?M = "missing_times ms ts s e"
  obtain out us where out: "snd (pad_entry_times parse df master s e) = Inr out"
    and cells: "map EntryTime out = map Stamp us"
    and us: "mset us = mset ts + mset ?M"
    using pad_out[OF assms, of s e] by blast
  have us': "mset us = mset (ts @ ?M)" using us by simp
  have set_us: "set us = set ts \<union> {t \<in> set ms. in_window s e t}"
    using mset_eq_setD[OF us'] by (auto simp: missing_times_set)
  have cnt: "count (mset us) t =
      count (mset ts) t + (if t \<in> set ms \<and> in_window s e t \<and> t \<notin> set ts then 1 else 0)" for t
  proof -
    have "count (mset ?M) t = (if t \<in> set ?M then 1 else 0)"
      using missing_times_distinct[of ms ts s e]
      by (metis count_mset_0_iff distinct_count_atmost_1)
    then show ?thesis by (simp add: us missing_times_set)
  qed
  have dist: "distinct us" if "distinct ts"
  proof -
    have "distinct (ts @ ?M)"
      using that missing_times_distinct[of ms ts s e] by (auto simp: missing_times_set)
    then show ?thesis using us' by (metis mset_eq_imp_distinct_iff)
  qed
  from out cells set_us cnt dist show ?thesis by blast
qed

theorem pad_entry_times_timestamps_witness:
  "to_datetime_col iso_parse test_master = Inr test_grid
   \<and> to_datetime_col iso_parse (map EntryTime test_df) = Inr test_times
   \<and> (\<exists>out us. snd (pad_entry_times iso_parse test_df test_master (2023, 1, 1) (2023, 12, 31)) = Inr out
        \<and> map EntryTime out = map Stamp us \<and> distinct us
        \<and> set us = {t \<in> set test_grid. in_window (2023, 1, 1) (2023, 12, 31) t})"
proof -
  have p: "distinct test_times \<and> set test_times \<subseteq> {t \<in> set test_grid. in_window (2023, 1, 1) (2023, 12, 31) t}"
    using test_times_in_grid test_times_distinct by blast
  from pad_entry_times_timestamps[where parse = iso_parse and s = "(2023, 1, 1)" and e = "(2023, 12, 31)",
      OF test_master_cast test_df_cast]
    p test_master_cast test_df_cast
  show ?thesis by blast
qed

theorem pad_entry_times_timestamps_counterexample:
  "snd (pad_entry_times iso_parse
          [\<lparr>EntryTime = Stamp ((2023, 1, 3), time_of 9 40 0), payload = [(''TradeID'', IntV 5015667)]\<rparr>]
          [Stamp ((2023, 1, 3), time_of 9 33 0)] (2023, 1, 3) (2023, 1, 3))
     = Inr [placeholder ((2023, 1, 3), time_of 9 33 0),
            \<lparr>EntryTime = Stamp ((2023, 1, 3), time_of 9 40 0), payload = [(''TradeID'', IntV 5015667)]\<rparr>]
   \<and> ((2023, 1, 3), time_of 9 40 0) \<notin> set [((2023, 1, 3), time_of 9 33 0)]"
  by (simp add: pad_entry_times_def Let_def to_datetime_def assign_EntryTime_def in_window_def
      date_of_def time_of_eq_iff time_of_le_iff time_of_less_iff)




text \<open>
  Claim C5. The table that the padding stage returns is sorted by EntryTime, non-decreasing,
  for every table, grid and window whose timestamp columns parse.
\<close>

theorem pad_entry_times_sorted:
  assumes "to_datetime_col parse master = Inr ms"
    and "to_datetime_col parse (map EntryTime df) = Inr ts"
  shows "\<exists>out us. snd (pad_entry_times parse df master s e) = Inr out
     \<and> map EntryTime out = map Stamp us \<and> sorted us"
  using pad_out[OF assms, of s e] by blast

theorem pad_entry_times_sorted_witness:
  "to_datetime_col iso_parse test_master = Inr test_grid
   \<and> to_datetime_col iso_parse (map EntryTime test_df) = Inr test_times
   \<and> (\<exists>out us. snd (pad_entry_times iso_parse test_df test_master (2023, 1, 1) (2023, 12, 31)) = Inr out
        \<and> map EntryTime out = map Stamp us \<and> sorted us)"
  using pad_entry_times_sorted[where parse = iso_parse and s = "(2023, 1, 1)" and e = "(2023, 12, 31)",
      OF test_master_cast test_df_cast]
    test_master_cast test_df_cast
  by blast



section \<open>Claims about the filter stage\<close>

lemma filter_result:
  assumes "to_datetime_col parse master = Inr ms"
    and "to_datetime_col parse (map EntryTime df) = Inr ts"
  shows "filter_early_close_data parse df master s e =
    ((map snd (assign_EntryTime df ts), map Stamp ms),
     Inr (map snd (filter (\<lambda>(t, r). t \<in> set ms)
        (filter (\<lambda>(t, r). (s, time_of 0 0 0) \<le> t \<and> t \<le> (e, time_of 23 59 59))
           (assign_EntryTime df ts)))))"
  using assms by (simp add: filter_early_close_data_def Let_def)


lemma filter_all:
  assumes "\<forall>(t, r)\<in>set X. P t"
  shows "filter (\<lambda>(t, r). P t) X = X"
  using assms by (induction X) auto

lemma window_interval:
  assumes "in_window s e t" and "snd t \<le> time_of 23 59 59"
  shows "(s, time_of 0 0 0) \<le> t \<and> t \<le> (e, time_of 23 59 59)"
proof -
  obtain d x where t: "t = (d, x)" by (cases t)
  from assms t have "s \<le> d" "d \<le> e" "x \<le> time_of 23 59 59"
    by (simp_all add: in_window_def date_of_def)
  moreover have "time_of 0 0 0 = 0" by (simp add: time_of_def)
  ultimately show ?thesis unfolding t by (auto simp: less_le)
qed

lemma cells_rel_refl:
  "list_all2 (\<lambda>c c'. c' = c \<or> (\<exists>x t. c = Raw x \<and> parse x = Some t \<and> c' = Stamp t)) cs cs"
  by (rule list_all2_refl) simp

lemma cells_rel_cast:
  assumes "to_datetime_col parse cs = Inr ts"
  shows "list_all2 (\<lambda>c c'. c' = c \<or> (\<exists>x t. c = Raw x \<and> parse x = Some t \<and> c' = Stamp t)) cs (map Stamp ts)"
  using to_datetime_col_cells[OF assms]
  by (simp add: list_all2_map2) (erule list_all2_mono, auto)



text \<open>
  Claim C6, as the code has it. The filter stage assigns the parsed column to the EntryTime
  column of the caller's table and to the SpxDayTime column of the caller's grid. After the
  call both have their rows in the same order and number, every payload is unchanged, and
  every timestamp cell is either unchanged or a string replaced by the timestamp it
  parses to; a table, or a grid, whose column already held timestamps is unchanged. The
  padding stage never changes the grid.
\<close>

theorem filter_early_close_data_frame:
  "\<exists>df' master'. fst (filter_early_close_data parse df master s e) = (df', master')
    \<and> map payload df' = map payload df
    \<and> list_all2 (\<lambda>c c'. c' = c \<or> (\<exists>x t. c = Raw x \<and> parse x = Some t \<and> c' = Stamp t))
         (map EntryTime df) (map EntryTime df')
    \<and> list_all2 (\<lambda>c c'. c' = c \<or> (\<exists>x t. c = Raw x \<and> parse x = Some t \<and> c' = Stamp t))
         master master'
    \<and> ((\<forall>r\<in>set df. \<exists>t. EntryTime r = Stamp t) \<longrightarrow> df' = df)
    \<and> ((\<forall>c\<in>set master. \<exists>t. c = Stamp t) \<longrightarrow> master' = master)
    \<and> snd (fst (pad_entry_times parse df master s e)) = master"
proof -
  let ?R = "\<lambda>c c'. c' = c \<or> (\<exists>x t. c = Raw x \<and> parse x = Some t \<and> c' = Stamp t)"
  have pad: "snd (fst (pad_entry_times parse df master s e)) = master"
    by (simp add: pad_entry_times_def Let_def split: sum.splits)
  show ?thesis
  proof (cases "to_datetime_col parse (map EntryTime df)")
    case (Inl err)
    then have "fst (filter_early_close_data parse df master s e) = (df, master)"
      by (simp add: filter_early_close_data_def)
    with pad cells_rel_refl[of parse] show ?thesis by simp
  next
    case (Inr ts)
    let ?df' = "map snd (assign_EntryTime df ts)"
    have len: "length ts = length df" using to_datetime_col_length[OF Inr] by simp
    have p: "map payload ?df' = map payload df" using assign_payload[OF len] by simp
    have "map EntryTime ?df' = map Stamp ts"
      using assign_EntryTime_cells[of df ts] assign_fst[OF len] by (simp flip: map_map)
    then have c: "list_all2 ?R (map EntryTime df) (map EntryTime ?df')"
      using cells_rel_cast[OF Inr] by simp
    have u: "?df' = df" if "\<forall>r\<in>set df. \<exists>t. EntryTime r = Stamp t"
    proof -
      have "map EntryTime df = map Stamp ts"
        using to_datetime_col_all_Stamp[OF Inr] that by auto
      then show ?thesis by (rule assign_all_Stamp)
    qed
    show ?thesis
    proof (cases "to_datetime_col parse master")
      case (Inl err)
      with Inr have "fst (filter_early_close_data parse df master s e) = (?df', master)"
        by (simp add: filter_early_close_data_def Let_def)
      with pad p c u cells_rel_refl[of parse master] show ?thesis by auto
    next
      case ms: (Inr ms)
      with Inr have f: "fst (filter_early_close_data parse df master s e) = (?df', map Stamp ms)"
        by (simp add: filter_early_close_data_def Let_def)
      have m: "master = map Stamp ms" if "\<forall>c\<in>set master. \<exists>t. c = Stamp t"
        using to_datetime_col_all_Stamp[OF ms] that by auto
      from f pad p c u cells_rel_cast[OF ms] m show ?thesis by auto
    qed
  qed
qed

theorem filter_early_close_data_frame_witness:
  "fst (filter_early_close_data iso_parse test_df test_master (2023, 1, 1) (2023, 12, 31))
     = (test_df, test_master)
   \<and> snd (fst (pad_entry_times iso_parse test_df test_master (2023, 1, 1) (2023, 12, 31))) = test_master"
proof -
  have d: "\<forall>r\<in>set test_df. \<exists>t. EntryTime r = Stamp t"
    by (simp add: test_df_def test_row_def)
  have m: "\<forall>c\<in>set test_master. \<exists>t. c = Stamp t"
    by (auto simp: test_master_def)
  from filter_early_close_data_frame[of iso_parse test_df test_master "(2023, 1, 1)" "(2023, 12, 31)"] d m
  show ?thesis by auto
qed

theorem filter_early_close_data_frame_counterexample:
  "fst (filter_early_close_data iso_parse csv_df test_master (2023, 1, 1) (2023, 12, 31))
     = ([\<lparr>EntryTime = Stamp ((2023, 1, 3), time_of 9 33 0), payload = [(''TradeID'', IntV 5015667)]\<rparr>],
        test_master)
   \<and> fst (filter_early_close_data iso_parse csv_df test_master (2023, 1, 1) (2023, 12, 31))
     \<noteq> (csv_df, test_master)"
proof -
  have "fst (filter_early_close_data iso_parse csv_df test_master (2023, 1, 1) (2023, 12, 31))
     = ([\<lparr>EntryTime = Stamp ((2023, 1, 3), time_of 9 33 0), payload = [(''TradeID'', IntV 5015667)]\<rparr>],
        test_master)"
    unfolding filter_result[OF test_master_cast csv_df_cast] fst_conv
    by (simp add: assign_EntryTime_def csv_df_def test_master_def)
  then show ?thesis by (simp add: csv_df_def)
qed

text \<open>
  Claim C8. For a table whose timestamps are all grid timestamps inside the window of the
  filter stage (start_date 00:00:00 to end_date 23:59:59), the filter stage returns the
  table: every row, in order, its payload unchanged (its EntryTime cell parsed, so the
  table itself when the column already held timestamps). For a grid that the generator
  built, the window may be read by date alone.
\<close>

theorem filter_early_close_data_noop:
  assumes "to_datetime_col parse master = Inr ms"
    and "to_datetime_col parse (map EntryTime df) = Inr ts"
  shows "((\<forall>t\<in>set ts. t \<in> set ms \<and> (s, time_of 0 0 0) \<le> t \<and> t \<le> (e, time_of 23 59 59))
          \<longrightarrow> snd (filter_early_close_data parse df master s e) = Inr (map snd (assign_EntryTime df ts)))
    \<and> ((\<forall>t\<in>set ts. t \<in> set ms \<and> (s, time_of 0 0 0) \<le> t \<and> t \<le> (e, time_of 23 59 59))
          \<and> (\<forall>r\<in>set df. \<exists>t. EntryTime r = Stamp t)
          \<longrightarrow> snd (filter_early_close_data parse df master s e) = Inr df)
    \<and> ((\<exists>cal cfg a b. generate_master_trading_day_list cal cfg a b = Inr master)
          \<and> (\<forall>t\<in>set ts. t \<in> set ms \<and> in_window s e t)
          \<longrightarrow> snd (filter_early_close_data parse df master s e) = Inr (map snd (assign_EntryTime df ts)))"
proof -
  let ?X = "assign_EntryTime df ts"
  let ?I = "\<lambda>t. (s, time_of 0 0 0) \<le> t \<and> t \<le> (e, time_of 23 59 59)"
  have len: "length ts = length df" using to_datetime_col_length[OF assms(2)] by simp
  have fst_X: "map fst ?X = ts" using assign_fst[OF len] .
  have A: "snd (filter_early_close_data parse df master s e) = Inr (map snd ?X)"
    if h: "\<forall>t\<in>set ts. t \<in> set ms \<and> ?I t"
  proof -
    have mem: "\<forall>(t, r)\<in>set ?X. t \<in> set ts"
      using fst_X by (metis (mono_tags, lifting) case_prodI2 fst_conv image_eqI list.set_map)
    have 1: "filter (\<lambda>(t, r). ?I t) ?X = ?X"
      by (rule filter_all) (use mem h in auto)
    have 2: "filter (\<lambda>(t, r). t \<in> set ms) ?X = ?X"
      by (rule filter_all) (use mem h in auto)
    show ?thesis by (simp only: filter_result[OF assms] snd_conv 1 2)
  qed
  have B: "snd (filter_early_close_data parse df master s e) = Inr df"
    if h: "\<forall>t\<in>set ts. t \<in> set ms \<and> ?I t" and st: "\<forall>r\<in>set df. \<exists>t. EntryTime r = Stamp t"
  proof -
    have "map EntryTime df = map Stamp ts"
      using to_datetime_col_all_Stamp[OF assms(2)] st by auto
    then have "map snd ?X = df" by (rule assign_all_Stamp)
    with A[OF h] show ?thesis by simp
  qed
  have C: "snd (filter_early_close_data parse df master s e) = Inr (map snd ?X)"
    if g: "\<exists>cal cfg a b. generate_master_trading_day_list cal cfg a b = Inr master"
      and h: "\<forall>t\<in>set ts. t \<in> set ms \<and> in_window s e t"
  proof -
    from g generate_Inr obtain gs where gs: "master = map Stamp gs"
      and b: "\<forall>t\<in>set gs. snd t \<le> time_of 23 59 59" by blast
    from assms(1) have "ms = gs" unfolding gs by (simp add: to_datetime_col_Stamp)
    with h b have "\<forall>t\<in>set ts. t \<in> set ms \<and> ?I t"
      using window_interval by blast
    then show ?thesis by (rule A)
  qed
  from A B C show ?thesis by blast
qed

theorem filter_early_close_data_noop_witness:
  "to_datetime_col iso_parse test_master = Inr test_grid
   \<and> to_datetime_col iso_parse (map EntryTime test_df) = Inr test_times
   \<and> generate_master_trading_day_list test_calendar test_config (2023, 1, 1) (2023, 12, 31) = Inr test_master
   \<and> snd (filter_early_close_data iso_parse test_df test_master (2023, 1, 1) (2023, 12, 31)) = Inr test_df"
proof -
  have b: "\<forall>t\<in>set test_grid. snd t \<le> time_of 23 59 59"
  proof -
    from generate_Inr[OF test_generate] obtain ts where ts: "test_master = map Stamp ts"
      and bb: "\<forall>t\<in>set ts. snd t \<le> time_of 23 59 59" by blast
    have "inj Stamp" by (simp add: inj_on_def)
    with ts have "test_grid = ts" unfolding test_master_def by (simp add: inj_map_eq_map)
    with bb show ?thesis by simp
  qed
  have i: "\<forall>t\<in>set test_times. t \<in> set test_grid
      \<and> ((2023, 1, 1), time_of 0 0 0) \<le> t \<and> t \<le> ((2023, 12, 31), time_of 23 59 59)"
    using test_times_in_grid b window_interval by blast
  have st: "\<forall>r\<in>set test_df. \<exists>t. EntryTime r = Stamp t"
    by (simp add: test_df_def test_row_def)
  from filter_early_close_data_noop[where parse = iso_parse and s = "(2023, 1, 1)" and e = "(2023, 12, 31)",
      OF test_master_cast test_df_cast] i st test_master_cast test_df_cast test_generate
  show ?thesis by blast
qed

end
